theory Spec2Isabelle
  imports Main "HOL-Library.Word"
begin

unbundle bit_operations_syntax

section \<open>JavaScript values used by the validator\<close>

text \<open>
  A JavaScript string is a sequence of UTF-16 code units. Code units are modelled as
  natural numbers, so every JavaScript string is a \<open>js_string\<close>. \<open>lit\<close> turns an ASCII
  literal of the source into its code units. A \<open>Uint8Array\<close> is a list of bytes.
\<close>

type_synonym js_string = "nat list"

type_synonym bytes = "8 word list"

definition lit :: "string \<Rightarrow> js_string" where
  "lit s = map of_char s"

text \<open>
  \<open>String.prototype.trim\<close> removes the code units of WhiteSpace and LineTerminator
  (ECMA-262) from both ends: TAB, LF, VT, FF, CR, SPACE, NBSP, U+1680, U+2000..U+200A,
  U+2028, U+2029, U+202F, U+205F, U+3000 and U+FEFF.
\<close>

definition isWhiteSpace :: "nat \<Rightarrow> bool" where
  "isWhiteSpace c \<longleftrightarrow>
     c = 9 \<or> c = 10 \<or> c = 11 \<or> c = 12 \<or> c = 13 \<or> c = 32 \<or> c = 160 \<or> c = 5760 \<or>
     (8192 \<le> c \<and> c \<le> 8202) \<or> c = 8232 \<or> c = 8233 \<or> c = 8239 \<or> c = 8287 \<or>
     c = 12288 \<or> c = 65279"

definition trimEnd :: "js_string \<Rightarrow> js_string" where
  "trimEnd s = rev (dropWhile isWhiteSpace (rev s))"

definition trim :: "js_string \<Rightarrow> js_string" where
  "trim s = trimEnd (dropWhile isWhiteSpace s)"

definition startsWith :: "js_string \<Rightarrow> js_string \<Rightarrow> bool" where
  "startsWith s p \<longleftrightarrow> take (length p) s = p"

text \<open>\<open>s.padStart(n, c)\<close> for a one-character fill string \<open>c\<close>.\<close>

definition padStart :: "nat \<Rightarrow> nat \<Rightarrow> js_string \<Rightarrow> js_string" where
  "padStart n c s = replicate (n - length s) c @ s"

text \<open>\<open>Number.prototype.toString\<close> in radix 10 and 16, on a non-negative integer.\<close>

function toString10 :: "nat \<Rightarrow> js_string" where
  "toString10 n = (if n < 10 then [48 + n] else toString10 (n div 10) @ [48 + n mod 10])"
  by pat_completeness auto
termination
  by (relation "measure id") auto

declare toString10.simps [simp del]

definition hexDigit :: "nat \<Rightarrow> nat" where
  "hexDigit d = (if d < 10 then 48 + d else 87 + d)"

function toString16 :: "nat \<Rightarrow> js_string" where
  "toString16 n = (if n < 16 then [hexDigit n] else toString16 (n div 16) @ [hexDigit (n mod 16)])"
  by pat_completeness auto
termination
  by (relation "measure id") auto

declare toString16.simps [simp del]

text \<open>The character class \<open>[0-9a-fA-F]\<close> and the value of one of its members.\<close>

definition isHexDigit :: "nat \<Rightarrow> bool" where
  "isHexDigit c \<longleftrightarrow> (48 \<le> c \<and> c \<le> 57) \<or> (97 \<le> c \<and> c \<le> 102) \<or> (65 \<le> c \<and> c \<le> 70)"

definition hexDigitValue :: "nat \<Rightarrow> int" where
  "hexDigitValue c =
     (if c \<le> 57 then int c - 48 else if 97 \<le> c then int c - 87 else int c - 55)"

definition hexValue :: "js_string \<Rightarrow> int" where
  "hexValue ds = foldl (\<lambda>a c. 16 * a + hexDigitValue c) 0 ds"

text \<open>
  \<open>BigInt("0x" + ds)\<close>: the argument of \<open>BigInt_0x\<close> is the text after the literal
  \<open>0x\<close>. Trailing white space is skipped, then hexadecimal digits are required;
  \<open>None\<close> is the \<open>SyntaxError\<close> that \<open>BigInt\<close> throws otherwise.
\<close>

definition BigInt_0x :: "js_string \<Rightarrow> int option" where
  "BigInt_0x ds =
     (let d = trimEnd ds
      in if d \<noteq> [] \<and> list_all isHexDigit d then Some (hexValue d) else None)"

section \<open>Type definitions and constants\<close>

datatype AddressFormat = Legacy | Public | Shielded | Unified | Unknown

record Receiver =
  type :: nat
  data :: bytes
  description :: "js_string option"

record ParsedData =
  hrp :: "js_string option"
  version :: "nat option"
  payload :: "bytes option"
  receivers :: "Receiver list option"
  felt252 :: "js_string option"
  checksum :: "js_string option"

record ValidationResult =
  isValid :: bool
  format :: AddressFormat
  error :: "js_string option"
  parsed :: "ParsedData option"

text \<open>The object literals of the source leave out the fields they do not set.\<close>

definition noParsed :: ParsedData where
  "noParsed = \<lparr>hrp = None, version = None, payload = None, receivers = None,
     felt252 = None, checksum = None\<rparr>"

definition invalid :: "AddressFormat \<Rightarrow> js_string \<Rightarrow> ValidationResult" where
  "invalid fmt msg = \<lparr>isValid = False, format = fmt, error = Some msg, parsed = None\<rparr>"

definition valid :: "AddressFormat \<Rightarrow> ParsedData \<Rightarrow> ValidationResult" where
  "valid fmt p = \<lparr>isValid = True, format = fmt, error = None, parsed = Some p\<rparr>"

definition STARKNET_HRPS_public :: js_string where
  "STARKNET_HRPS_public = lit ''strk''"

definition STARKNET_HRPS_shielded :: js_string where
  "STARKNET_HRPS_shielded = lit ''strkx''"

definition STARKNET_HRPS_unified :: js_string where
  "STARKNET_HRPS_unified = lit ''strku''"

definition FELT252_MAX :: int where
  "FELT252_MAX = 2 ^ 251 - 1"

definition TLV_PUBLIC_KEY :: nat where
  "TLV_PUBLIC_KEY = 0"

definition TLV_SHIELDED :: nat where
  "TLV_SHIELDED = 1"

section \<open>Format detection and the legacy validator\<close>

definition detectAddressFormat :: "js_string \<Rightarrow> AddressFormat" where
  "detectAddressFormat input =
     (let trimmed = trim input
      in if startsWith trimmed (lit ''0x'') then Legacy
         else if startsWith trimmed (lit ''strk1'') then Public
         else if startsWith trimmed (lit ''strkx1'') then Shielded
         else if startsWith trimmed (lit ''strku1'') then Unified
         else Unknown)"

definition validateLegacyAddress :: "js_string \<Rightarrow> ValidationResult" where
  "validateLegacyAddress input =
     (let trimmed = trim input
      in if \<not> startsWith trimmed (lit ''0x'') then
           invalid Legacy (lit ''Legacy address must start with 0x'')
         else
           let hexPart = drop 2 trimmed
           in if length hexPart = 0 then
                invalid Legacy (lit ''Address cannot be empty after 0x'')
              else if \<not> (hexPart \<noteq> [] \<and> list_all isHexDigit hexPart) then
                invalid Legacy (lit ''Address contains invalid hexadecimal characters'')
              else if length hexPart > 64 then
                invalid Legacy (lit ''Address is too long (max 64 hex characters)'')
              else
                let paddedHex = padStart 64 48 hexPart
                in case BigInt_0x paddedHex of
                     None \<Rightarrow> invalid Legacy (lit ''Failed to parse address as number'')
                   | Some bigIntValue \<Rightarrow>
                       if bigIntValue > FELT252_MAX then
                         invalid Legacy (lit ''Address exceeds felt252 maximum value (2^251 - 1)'')
                       else
                         valid Legacy (noParsed\<lparr>felt252 := Some (lit ''0x'' @ paddedHex)\<rparr>))"

section \<open>Validators of decoded Bech32 payloads\<close>

definition byteHex :: "8 word \<Rightarrow> js_string" where
  "byteHex b = padStart 2 48 (toString16 (unat b))"

definition bytesToHex :: "bytes \<Rightarrow> js_string" where
  "bytesToHex bs = concat (map byteHex bs)"

definition validateSimpleAddress ::
  "AddressFormat \<Rightarrow> js_string \<Rightarrow> nat \<Rightarrow> bytes \<Rightarrow> ValidationResult" where
  "validateSimpleAddress fmt hrp' version' data' =
     (if version' \<noteq> 1 then
        invalid fmt (lit ''Unsupported version: '' @ toString10 version' @ lit '' (expected 1)'')
      else if length data' \<noteq> 32 then
        invalid fmt (lit ''Invalid data length: '' @ toString10 (length data') @
          lit '' bytes (expected 32)'')
      else
        case BigInt_0x (concat (map byteHex data')) of
          None \<Rightarrow> invalid fmt (lit ''Failed to parse address data'')
        | Some bigIntValue \<Rightarrow>
            if bigIntValue > FELT252_MAX then
              invalid fmt (lit ''Address exceeds felt252 maximum value (2^251 - 1)'')
            else
              let felt = lit ''0x'' @ concat (map byteHex data')
              in valid fmt (noParsed\<lparr>hrp := Some hrp', version := Some version',
                   payload := Some data', felt252 := Some felt\<rparr>))"

text \<open>
  The \<open>while\<close> loop of \<open>validateUnifiedAddress\<close>, with its three variables. \<open>Inl\<close> is
  the error message of a \<open>return\<close> from inside the loop, \<open>Inr\<close> the receivers when the
  loop ends.
\<close>

function tlvLoop :: "bytes \<Rightarrow> nat \<Rightarrow> Receiver list \<Rightarrow> js_string + Receiver list" where
  "tlvLoop data' offset rs =
     (if offset < length data' then
        if offset + 2 > length data' then
          Inl (lit ''Incomplete TLV record: missing type or length'')
        else
          let type' = unat (data' ! offset);
              len = unat (data' ! (offset + 1));
              offset1 = offset + 2
          in if offset1 + len > length data' then
               Inl (lit ''Incomplete TLV record: expected '' @ toString10 len @
                 lit '' bytes but only '' @ toString10 (length data' - offset1) @
                 lit '' remaining'')
             else
               let receiverData = take len (drop offset1 data');
                   offset2 = offset1 + len
               in if type' = TLV_PUBLIC_KEY then
                    if len \<noteq> 32 then
                      Inl (lit ''Invalid public key length: '' @ toString10 len @
                        lit '' bytes (expected 32)'')
                    else
                      tlvLoop data' offset2 (rs @ [\<lparr>type = type', data = receiverData,
                        description = Some (lit ''Public key receiver'')\<rparr>])
                  else if type' = TLV_SHIELDED then
                    if len \<noteq> 32 then
                      Inl (lit ''Invalid shielded receiver length: '' @ toString10 len @
                        lit '' bytes (expected 32)'')
                    else
                      tlvLoop data' offset2 (rs @ [\<lparr>type = type', data = receiverData,
                        description = Some (lit ''Shielded receiver'')\<rparr>])
                  else
                    tlvLoop data' offset2 (rs @ [\<lparr>type = type', data = receiverData,
                      description = Some (lit ''Unknown receiver type '' @ toString10 type')\<rparr>])
      else Inr rs)"
  by pat_completeness auto
termination
  by (relation "measure (\<lambda>(d, offset, rs). length d - offset)") auto

declare tlvLoop.simps [simp del]

definition validateUnifiedAddress :: "js_string \<Rightarrow> nat \<Rightarrow> bytes \<Rightarrow> ValidationResult" where
  "validateUnifiedAddress hrp' version' data' =
     (if version' \<noteq> 1 then
        invalid Unified
          (lit ''Unsupported version: '' @ toString10 version' @ lit '' (expected 1)'')
      else
        case tlvLoop data' 0 [] of
          Inl msg \<Rightarrow> invalid Unified msg
        | Inr rs \<Rightarrow>
            if length rs = 0 then
              invalid Unified (lit ''Unified address must contain at least one receiver'')
            else
              valid Unified (noParsed\<lparr>hrp := Some hrp', version := Some version',
                payload := Some data', receivers := Some rs\<rparr>))"

section \<open>The Bech32 codec and the dispatch\<close>

text \<open>
  The source imports \<open>bech32\<close> from the package of that name; the package is a
  dependency and not part of the repository. The validator is therefore parametric in
  the four operations it calls. A call either returns or throws; what is thrown is an
  \<open>Error\<close> object with its message, or some other value.
\<close>

datatype thrown = Error js_string | NonError

record codec =
  decode :: "js_string \<Rightarrow> thrown + (js_string \<times> nat list)"
  fromWords :: "nat list \<Rightarrow> thrown + nat list"
  toWords :: "bytes \<Rightarrow> thrown + nat list"
  encode :: "js_string \<Rightarrow> nat list \<Rightarrow> thrown + js_string"

definition expectedHrpOf :: "AddressFormat \<Rightarrow> js_string" where
  "expectedHrpOf expectedFormat =
     (if expectedFormat = Public then STARKNET_HRPS_public
      else if expectedFormat = Shielded then STARKNET_HRPS_shielded
      else if expectedFormat = Unified then STARKNET_HRPS_unified
      else [])"

text \<open>The \<open>catch\<close> clause of \<open>validateBech32Address\<close>.\<close>

definition decodeError :: "AddressFormat \<Rightarrow> thrown \<Rightarrow> ValidationResult" where
  "decodeError expectedFormat t =
     invalid expectedFormat (lit ''Bech32 decode error: '' @
       (case t of Error message \<Rightarrow> message | NonError \<Rightarrow> lit ''Unknown error''))"

text \<open>\<open>new Uint8Array(ws)\<close> stores every number modulo 256.\<close>

definition validateBech32Address ::
  "codec \<Rightarrow> js_string \<Rightarrow> AddressFormat \<Rightarrow> ValidationResult" where
  "validateBech32Address C input expectedFormat =
     (let trimmed = trim input
      in case decode C trimmed of
           Inl t \<Rightarrow> decodeError expectedFormat t
         | Inr (prefix, words) \<Rightarrow>
             let expectedHrp = expectedHrpOf expectedFormat
             in if prefix \<noteq> expectedHrp then
                  invalid expectedFormat (lit ''Invalid HRP: expected '' @ expectedHrp @
                    lit '', got '' @ prefix)
                else
                  (case fromWords C words of
                     Inl t \<Rightarrow> decodeError expectedFormat t
                   | Inr ws \<Rightarrow>
                       let payload' = (map of_nat ws :: bytes)
                       in if length payload' = 0 then
                            invalid expectedFormat (lit ''Empty payload'')
                          else
                            let version' = unat (payload' ! 0);
                                data' = drop 1 payload'
                            in if expectedFormat = Unified then
                                 validateUnifiedAddress prefix version' data'
                               else
                                 validateSimpleAddress expectedFormat prefix version' data'))"

definition validateStarknetAddress :: "codec \<Rightarrow> js_string \<Rightarrow> ValidationResult" where
  "validateStarknetAddress C input =
     (if input = [] then
        invalid Unknown (lit ''Input must be a non-empty string'')
      else
        case detectAddressFormat input of
          Legacy \<Rightarrow> validateLegacyAddress input
        | Public \<Rightarrow> validateBech32Address C input Public
        | Shielded \<Rightarrow> validateBech32Address C input Shielded
        | Unified \<Rightarrow> validateBech32Address C input Unified
        | Unknown \<Rightarrow>
            invalid Unknown (lit (''Unknown address format. Supported formats: 0x... (legacy), '' @
              ''strk1... (public), strkx1... (shielded), strku1... (unified)'')))"

section \<open>The test vector generator\<close>

text \<open>
  \<open>Math.random\<close> is the only input of \<open>generateTestVector\<close> besides the format. The
  model takes the draws as a list, one entry for each call of \<open>randomByte\<close> or
  \<open>randomHex\<close> in call order; an entry is read modulo 256 (modulo 16 by \<open>randomHex\<close>),
  so every list is a possible run and every run is some list. \<open>OutOfDraws\<close> is the
  result when the list ends before the function returns.
\<close>

datatype gen_result = Returned js_string | Threw thrown | ThrewSyntaxError | OutOfDraws

definition randomByte :: "nat \<Rightarrow> 8 word" where
  "randomByte d = of_nat (d mod 256)"

definition randomHex :: "nat \<Rightarrow> js_string" where
  "randomHex d = toString16 (d mod 16)"

text \<open>The \<open>do ... while\<close> loop of the legacy case: 64 draws for each round.\<close>

function legacyLoop :: "nat list \<Rightarrow> gen_result" where
  "legacyLoop rnd =
     (if length rnd < 64 then OutOfDraws
      else
        let hexAddr0 = concat (map randomHex (take 64 rnd));
            hexAddr = lit ''0'' @ drop 1 hexAddr0
        in case BigInt_0x hexAddr of
             None \<Rightarrow> ThrewSyntaxError
           | Some v \<Rightarrow>
               if v > FELT252_MAX then legacyLoop (drop 64 rnd)
               else Returned (lit ''0x'' @ hexAddr))"
  by pat_completeness auto
termination
  by (relation "measure length") auto

declare legacyLoop.simps [simp del]

text \<open>
  The bodies of the \<open>public\<close> and \<open>shielded\<close> cases differ in the prefix and in the
  fallback literal only; \<open>encodeOrFallback\<close> is the \<open>try\<close> block from \<open>toWords\<close> on.
\<close>

definition maskedBytes :: "nat list \<Rightarrow> bytes" where
  "maskedBytes rnd =
     (let addressData = map randomByte (take 32 rnd)
      in addressData[0 := (addressData ! 0) AND 0x0f])"

definition encodeOrFallback :: "codec \<Rightarrow> js_string \<Rightarrow> bytes \<Rightarrow> js_string \<Rightarrow> gen_result" where
  "encodeOrFallback C hrp' payload' fallback =
     (case toWords C payload' of
        Inl t \<Rightarrow> Returned fallback
      | Inr words \<Rightarrow>
          (case encode C hrp' words of
             Inl t \<Rightarrow> Returned fallback
           | Inr s \<Rightarrow> Returned s))"

definition generateTestVector :: "codec \<Rightarrow> nat list \<Rightarrow> AddressFormat \<Rightarrow> gen_result" where
  "generateTestVector C rnd fmt =
     (case fmt of
        Legacy \<Rightarrow> legacyLoop rnd
      | Public \<Rightarrow>
          if length rnd < 32 then OutOfDraws
          else
            encodeOrFallback C STARKNET_HRPS_public (1 # maskedBytes rnd)
              (lit ''strk1qqqqqqqqqqqqqqqqqqqqqqqqqqqqqqqqqqqqqqqqqqqqqqqqqqqqqqqqqqqqqqqfc6h6a'')
      | Shielded \<Rightarrow>
          if length rnd < 32 then OutOfDraws
          else
            encodeOrFallback C STARKNET_HRPS_shielded (1 # maskedBytes rnd)
              (lit ''strkx1qqqqqqqqqqqqqqqqqqqqqqqqqqqqqqqqqqqqqqqqqqqqqqqqqqqqqqqqqqqqqq7cs4az'')
      | Unified \<Rightarrow>
          if length rnd < 32 then OutOfDraws
          else
            let tlvData = [of_nat TLV_PUBLIC_KEY, 32] @ maskedBytes rnd
            in encodeOrFallback C STARKNET_HRPS_unified (1 # tlvData)
                 (lit ''strku1qqqqqsqqqqqqqqqqqqqqqqqqqqqqqqqqqqqqqqqqqqqqqqqqqqqqqqqqqqqqqqqqqqqqqh9k5w4'')
      | Unknown \<Rightarrow>
          Threw (Error (lit ''Cannot generate test vector for format: unknown'')))"

section \<open>A reference codec\<close>

text \<open>
  The \<open>bech32\<close> object of the package (version 2), written out after its published
  JavaScript: the Bech32 checksum of BIP-173 with the final constant 1, the length limit
  of 90 characters, and the regrouping of bits between bytes and 5-bit words. The
  bitwise operators of JavaScript work on 32-bit integers. \<open>toLowerCase\<close> and
  \<open>toUpperCase\<close> are modelled on the ASCII letters only: on a string with a cased
  letter outside ASCII the result of \<open>decode\<close> can differ from the package's. The
  theorems below hold for every codec; this one instantiates them at concrete ASCII
  addresses.
\<close>

definition ALPHABET :: js_string where
  "ALPHABET = lit ''qpzry9x8gf2tvdw0s3jn54khce6mua7l''"

definition ALPHABET_MAP :: "nat \<Rightarrow> nat option" where
  "ALPHABET_MAP c = map_of (zip ALPHABET [0..<32]) c"

definition toLowerCase :: "js_string \<Rightarrow> js_string" where
  "toLowerCase s = map (\<lambda>c. if 65 \<le> c \<and> c \<le> 90 then c + 32 else c) s"

definition toUpperCase :: "js_string \<Rightarrow> js_string" where
  "toUpperCase s = map (\<lambda>c. if 97 \<le> c \<and> c \<le> 122 then c - 32 else c) s"

fun lastIndexOf :: "js_string \<Rightarrow> nat \<Rightarrow> nat option" where
  "lastIndexOf [] c = None"
| "lastIndexOf (x # xs) c =
     (case lastIndexOf xs c of
        Some i \<Rightarrow> Some (Suc i)
      | None \<Rightarrow> if x = c then Some 0 else None)"

definition polymodStep :: "32 word \<Rightarrow> 32 word" where
  "polymodStep pre =
     (let b = drop_bit 25 pre
      in push_bit 5 (pre AND 0x1ffffff) XOR
         (if bit b 0 then 0x3b6a57b2 else 0) XOR
         (if bit b 1 then 0x26508e6d else 0) XOR
         (if bit b 2 then 0x1ea119fa else 0) XOR
         (if bit b 3 then 0x3d4233dd else 0) XOR
         (if bit b 4 then 0x2a1462b3 else 0))"

definition prefixChk :: "js_string \<Rightarrow> js_string + 32 word" where
  "prefixChk p =
     (if list_ex (\<lambda>c. c < 33 \<or> c > 126) p then
        Inl (lit ''Invalid prefix ('' @ p @ lit '')'')
      else
        let chk = foldl (\<lambda>chk c. polymodStep chk XOR of_nat (drop_bit 5 c)) 1 p;
            chk = polymodStep chk
        in Inr (foldl (\<lambda>chk v. polymodStep chk XOR of_nat (v AND 0x1f)) chk p))"

text \<open>The inner \<open>while\<close> loop and the \<open>for\<close> loop of \<open>convert\<close>.\<close>

function drain :: "nat \<Rightarrow> 32 word \<Rightarrow> nat \<Rightarrow> nat list \<Rightarrow> nat \<times> nat list" where
  "drain outBits v bits result =
     (if 0 < outBits \<and> outBits \<le> bits then
        drain outBits v (bits - outBits)
          (result @ [unat (drop_bit (bits - outBits) v AND mask outBits)])
      else (bits, result))"
  by pat_completeness auto
termination
  by (relation "measure (\<lambda>(outBits, v, bits, result). bits)") auto

declare drain.simps [simp del]

fun convertLoop ::
  "nat \<Rightarrow> nat \<Rightarrow> nat list \<Rightarrow> 32 word \<Rightarrow> nat \<Rightarrow> nat list \<Rightarrow> 32 word \<times> nat \<times> nat list" where
  "convertLoop inBits outBits [] v bits result = (v, bits, result)"
| "convertLoop inBits outBits (d # ds) v bits result =
     (let v' = push_bit inBits v OR of_nat d;
          (bits', result') = drain outBits v' (bits + inBits) result
      in convertLoop inBits outBits ds v' bits' result')"

definition convert :: "nat list \<Rightarrow> nat \<Rightarrow> nat \<Rightarrow> bool \<Rightarrow> js_string + nat list" where
  "convert data' inBits outBits pad =
     (let (v, bits, result) = convertLoop inBits outBits data' 0 0 []
      in if pad then
           (if bits > 0 then
              Inr (result @ [unat (push_bit (outBits - bits) v AND mask outBits)])
            else Inr result)
         else if bits \<ge> inBits then Inl (lit ''Excess padding'')
         else if push_bit (outBits - bits) v AND mask outBits \<noteq> 0 then
           Inl (lit ''Non-zero padding'')
         else Inr result)"

definition bech32_toWords :: "bytes \<Rightarrow> thrown + nat list" where
  "bech32_toWords bs =
     (case convert (map unat bs) 8 5 True of
        Inl msg \<Rightarrow> Inl (Error msg)
      | Inr ws \<Rightarrow> Inr ws)"

definition bech32_fromWords :: "nat list \<Rightarrow> thrown + nat list" where
  "bech32_fromWords ws =
     (case convert ws 5 8 False of
        Inl msg \<Rightarrow> Inl (Error msg)
      | Inr bs \<Rightarrow> Inr bs)"

fun encodeLoop :: "nat list \<Rightarrow> 32 word \<Rightarrow> js_string \<Rightarrow> js_string + 32 word \<times> js_string" where
  "encodeLoop [] chk result = Inr (chk, result)"
| "encodeLoop (x # xs) chk result =
     (if drop_bit 5 x \<noteq> 0 then Inl (lit ''Non 5-bit word'')
      else encodeLoop xs (polymodStep chk XOR of_nat x) (result @ [ALPHABET ! x]))"

definition bech32_encode :: "js_string \<Rightarrow> nat list \<Rightarrow> thrown + js_string" where
  "bech32_encode prefix0 words =
     (if length prefix0 + 7 + length words > 90 then
        Inl (Error (lit ''Exceeds length limit''))
      else
        let prefix = toLowerCase prefix0
        in case prefixChk prefix of
             Inl msg \<Rightarrow> Inl (Error msg)
           | Inr chk0 \<Rightarrow>
               (case encodeLoop words chk0 (prefix @ lit ''1'') of
                  Inl msg \<Rightarrow> Inl (Error msg)
                | Inr (chk1, result) \<Rightarrow>
                    let chk2 = foldl (\<lambda>chk i. polymodStep chk) chk1 [0..<6] XOR 1
                    in Inr (result @
                         map (\<lambda>i. ALPHABET ! unat (drop_bit ((5 - i) * 5) chk2 AND 0x1f))
                           [0..<6])))"

fun decodeLoop :: "js_string \<Rightarrow> 32 word \<Rightarrow> nat list \<Rightarrow> js_string + 32 word \<times> nat list" where
  "decodeLoop [] chk words = Inr (chk, words)"
| "decodeLoop (c # cs) chk words =
     (case ALPHABET_MAP c of
        None \<Rightarrow> Inl (lit ''Unknown character '' @ [c])
      | Some v \<Rightarrow>
          if length cs < 6 then decodeLoop cs (polymodStep chk XOR of_nat v) words
          else decodeLoop cs (polymodStep chk XOR of_nat v) (words @ [v]))"

definition bech32_decode :: "js_string \<Rightarrow> thrown + (js_string \<times> nat list)" where
  "bech32_decode str0 =
     (if length str0 < 8 then Inl (Error (str0 @ lit '' too short''))
      else if length str0 > 90 then Inl (Error (lit ''Exceeds length limit''))
      else
        let lowered = toLowerCase str0;
            uppered = toUpperCase str0
        in if str0 \<noteq> lowered \<and> str0 \<noteq> uppered then
             Inl (Error (lit ''Mixed-case string '' @ str0))
           else
             let str = lowered
             in case lastIndexOf str 49 of
                  None \<Rightarrow> Inl (Error (lit ''No separator character for '' @ str))
                | Some split \<Rightarrow>
                    if split = 0 then Inl (Error (lit ''Missing prefix for '' @ str))
                    else
                      let prefix = take split str;
                          wordChars = drop (split + 1) str
                      in if length wordChars < 6 then Inl (Error (lit ''Data too short''))
                         else
                           (case prefixChk prefix of
                              Inl msg \<Rightarrow> Inl (Error msg)
                            | Inr chk0 \<Rightarrow>
                                (case decodeLoop wordChars chk0 [] of
                                   Inl msg \<Rightarrow> Inl (Error msg)
                                 | Inr (chk, words) \<Rightarrow>
                                     if chk \<noteq> 1 then
                                       Inl (Error (lit ''Invalid checksum for '' @ str))
                                     else Inr (prefix, words))))"

definition bech32 :: codec where
  "bech32 = \<lparr>decode = bech32_decode, fromWords = bech32_fromWords,
     toWords = bech32_toWords, encode = bech32_encode\<rparr>"

section \<open>The simple validator as the specification words it\<close>

text \<open>
  The rules of the specification for a decoded public or shielded payload, in their
  order, on the big-endian value of the bytes. \<open>validateSimpleAddress\<close> above follows
  the source, which renders the bytes in hexadecimal and parses the text.
\<close>

definition be_value :: "bytes \<Rightarrow> int" where
  "be_value bs = foldl (\<lambda>a b. 256 * a + uint b) 0 bs"

definition validateSimple_spec ::
  "AddressFormat \<Rightarrow> js_string \<Rightarrow> nat \<Rightarrow> bytes \<Rightarrow> ValidationResult" where
  "validateSimple_spec fmt hrp' version' data' =
     (if version' \<noteq> 1 then
        invalid fmt (lit ''Unsupported version: '' @ toString10 version' @ lit '' (expected 1)'')
      else if length data' \<noteq> 32 then
        invalid fmt (lit ''Invalid data length: '' @ toString10 (length data') @
          lit '' bytes (expected 32)'')
      else if be_value data' > FELT252_MAX then
        invalid fmt (lit ''Address exceeds felt252 maximum value (2^251 - 1)'')
      else
        valid fmt (noParsed\<lparr>hrp := Some hrp', version := Some version',
          payload := Some data', felt252 := Some (lit ''0x'' @ bytesToHex data')\<rparr>))"

section \<open>The record parser as the specification words it\<close>

text \<open>
  The specification reads a unified payload as a sequence of records: one byte of type,
  one byte of length, then that many bytes of value, until the payload ends.
  \<open>parseTLV\<close> consumes the payload from its front, with the policy of the
  specification in its order: a missing header, a value that is cut short, a known type
  with a length other than 32. \<open>tlvLoop\<close> above follows the source, which walks the
  payload with an offset.
\<close>

definition receiverOf :: "nat \<Rightarrow> bytes \<Rightarrow> Receiver" where
  "receiverOf t v =
     \<lparr>type = t, data = v,
      description = Some
        (if t = TLV_PUBLIC_KEY then lit ''Public key receiver''
         else if t = TLV_SHIELDED then lit ''Shielded receiver''
         else lit ''Unknown receiver type '' @ toString10 t)\<rparr>"

definition lengthError :: "nat \<Rightarrow> nat \<Rightarrow> js_string option" where
  "lengthError t len =
     (if t = TLV_PUBLIC_KEY \<and> len \<noteq> 32 then
        Some (lit ''Invalid public key length: '' @ toString10 len @ lit '' bytes (expected 32)'')
      else if t = TLV_SHIELDED \<and> len \<noteq> 32 then
        Some (lit ''Invalid shielded receiver length: '' @ toString10 len @
          lit '' bytes (expected 32)'')
      else None)"

definition incompleteError :: "nat \<Rightarrow> nat \<Rightarrow> js_string" where
  "incompleteError len remaining =
     lit ''Incomplete TLV record: expected '' @ toString10 len @ lit '' bytes but only '' @
       toString10 remaining @ lit '' remaining''"

fun parseTLV :: "bytes \<Rightarrow> js_string + Receiver list" where
  "parseTLV [] = Inr []"
| "parseTLV [t] = Inl (lit ''Incomplete TLV record: missing type or length'')"
| "parseTLV (t # l # rest) =
     (if unat l > length rest then Inl (incompleteError (unat l) (length rest))
      else
        case lengthError (unat t) (unat l) of
          Some e \<Rightarrow> Inl e
        | None \<Rightarrow>
            (case parseTLV (drop (unat l) rest) of
               Inl e \<Rightarrow> Inl e
             | Inr rs \<Rightarrow> Inr (receiverOf (unat t) (take (unat l) rest) # rs)))"

section \<open>Basic facts\<close>

lemma lit_0x: "lit ''0x'' = [48, 120]"
  by (simp add: lit_def)

lemma format_invalid [simp]: "format (invalid f m) = f"
  by (simp add: invalid_def)

lemma format_valid [simp]: "format (valid f p) = f"
  by (simp add: valid_def)

lemma format_validateLegacyAddress: "format (validateLegacyAddress input) = Legacy"
  by (simp add: validateLegacyAddress_def Let_def split: option.splits)

lemma format_validateSimpleAddress: "format (validateSimpleAddress f h v d) = f"
  by (simp add: validateSimpleAddress_def Let_def split: option.splits)

lemma format_validateUnifiedAddress: "format (validateUnifiedAddress h v d) = Unified"
  by (simp add: validateUnifiedAddress_def Let_def split: sum.splits)

lemma format_validateBech32Address: "format (validateBech32Address C input f) = f"
  by (simp add: validateBech32Address_def Let_def decodeError_def
      format_validateSimpleAddress format_validateUnifiedAddress split: sum.splits prod.splits)

lemma detect_empty: "detectAddressFormat [] = Unknown"
  by (simp add: detectAddressFormat_def trim_def trimEnd_def startsWith_def lit_def)

lemma isValid_invalid [simp]: "isValid (invalid f m) = False"
  by (simp add: invalid_def)

lemma isValid_valid [simp]: "isValid (valid f p) = True"
  by (simp add: valid_def)

lemma parsed_valid [simp]: "parsed (valid f p) = Some p"
  by (simp add: valid_def)

lemmas string_eval = lit_def trim_def trimEnd_def isWhiteSpace_def startsWith_def
  isHexDigit_def padStart_def

subsection \<open>Trimming and hexadecimal digits\<close>

lemma dropWhile_hd: "s \<noteq> [] \<Longrightarrow> \<not> P (hd s) \<Longrightarrow> dropWhile P s = s"
  by (cases s) simp_all

lemma trimEnd_id: "s \<noteq> [] \<Longrightarrow> \<not> isWhiteSpace (last s) \<Longrightarrow> trimEnd s = s"
  by (simp add: trimEnd_def dropWhile_hd hd_rev)

lemma trim_id:
  "s \<noteq> [] \<Longrightarrow> \<not> isWhiteSpace (hd s) \<Longrightarrow> \<not> isWhiteSpace (last s) \<Longrightarrow> trim s = s"
  by (simp add: trim_def dropWhile_hd trimEnd_id)

lemma hex_not_space: "isHexDigit c \<Longrightarrow> \<not> isWhiteSpace c"
  by (auto simp: isHexDigit_def isWhiteSpace_def)

lemma last_hex: "s \<noteq> [] \<Longrightarrow> list_all isHexDigit s \<Longrightarrow> isHexDigit (last s)"
  by (simp add: list_all_iff)

lemma BigInt_0x_hex:
  "s \<noteq> [] \<Longrightarrow> list_all isHexDigit s \<Longrightarrow> BigInt_0x s = Some (hexValue s)"
  by (simp add: BigInt_0x_def trimEnd_id hex_not_space last_hex)

lemma hexValue_zeros: "hexValue (replicate n 48 @ s) = hexValue s"
  by (induction n) (simp_all add: hexValue_def hexDigitValue_def)

lemma hexValue_snoc: "hexValue (s @ [c]) = 16 * hexValue s + hexDigitValue c"
  by (simp add: hexValue_def)

lemma isHexDigit_48: "isHexDigit 48"
  by (simp add: isHexDigit_def)

lemma startsWith_split: "startsWith s p \<Longrightarrow> s = p @ drop (length p) s"
  by (metis append_take_drop_id startsWith_def)

lemma trim_0x_hex:
  assumes "hs \<noteq> []" "list_all isHexDigit hs"
  shows "trim (lit ''0x'' @ hs) = lit ''0x'' @ hs"
proof -
  have "\<not> isWhiteSpace (last (lit ''0x'' @ hs))"
    using assms by (simp add: hex_not_space last_hex)
  moreover have "\<not> isWhiteSpace (hd (lit ''0x'' @ hs))"
    by (simp add: lit_0x isWhiteSpace_def)
  ultimately show ?thesis
    by (simp add: trim_id lit_0x)
qed

subsection \<open>The legacy validator on well-formed input\<close>

lemma legacy_hex:
  assumes "hs \<noteq> []" "length hs \<le> 64" "list_all isHexDigit hs"
  shows "validateLegacyAddress (lit ''0x'' @ hs) =
    (if hexValue hs \<le> FELT252_MAX
     then valid Legacy (noParsed\<lparr>felt252 := Some (lit ''0x'' @ padStart 64 48 hs)\<rparr>)
     else invalid Legacy (lit ''Address exceeds felt252 maximum value (2^251 - 1)''))"
proof -
  have t: "trim (lit ''0x'' @ hs) = lit ''0x'' @ hs"
    using assms by (simp add: trim_0x_hex)
  have p: "padStart 64 48 hs \<noteq> []" "list_all isHexDigit (padStart 64 48 hs)"
    using assms by (auto simp: padStart_def isHexDigit_48 list_all_iff)
  have b: "BigInt_0x (padStart 64 48 hs) = Some (hexValue hs)"
    using BigInt_0x_hex [OF p] by (simp add: padStart_def hexValue_zeros)
  show ?thesis
    using assms t by (simp add: validateLegacyAddress_def lit_0x startsWith_def b Let_def)
qed

lemma detect_0x:
  assumes "hs \<noteq> []" "list_all isHexDigit hs"
  shows "detectAddressFormat (lit ''0x'' @ hs) = Legacy"
  using trim_0x_hex [OF assms] by (simp add: detectAddressFormat_def lit_0x startsWith_def)

lemma starknet_legacy_hex:
  assumes "hs \<noteq> []" "length hs \<le> 64" "list_all isHexDigit hs"
  shows "validateStarknetAddress C (lit ''0x'' @ hs) = validateLegacyAddress (lit ''0x'' @ hs)"
proof -
  have "lit ''0x'' @ hs \<noteq> []"
    using assms by simp
  then show ?thesis
    using assms by (simp add: validateStarknetAddress_def detect_0x)
qed

lemma legacy_valid:
  assumes "hs \<noteq> []" "length hs \<le> 64" "list_all isHexDigit hs" "hexValue hs \<le> FELT252_MAX"
  shows "validateStarknetAddress C (lit ''0x'' @ hs) =
     valid Legacy (noParsed\<lparr>felt252 := Some (lit ''0x'' @ padStart 64 48 hs)\<rparr>)"
  using assms by (simp add: starknet_legacy_hex legacy_hex)

lemma legacy_valid_parsed:
  assumes "isValid (validateLegacyAddress input)"
  shows "trim input = lit ''0x'' @ drop 2 (trim input) \<and>
     drop 2 (trim input) \<noteq> [] \<and>
     length (drop 2 (trim input)) \<le> 64 \<and>
     list_all isHexDigit (drop 2 (trim input)) \<and>
     parsed (validateLegacyAddress input) =
       Some (noParsed\<lparr>felt252 :=
         Some (lit ''0x'' @ replicate (64 - length (drop 2 (trim input))) 48 @ drop 2 (trim input))\<rparr>)"
proof -
  have sw: "startsWith (trim input) (lit ''0x'')"
    using assms by (auto simp: validateLegacyAddress_def Let_def split: if_splits)
  have "length (lit ''0x'') = 2"
    by (simp add: lit_def)
  with startsWith_split [OF sw] have e: "trim input = lit ''0x'' @ drop 2 (trim input)"
    by simp
  have r: "drop 2 (trim input) \<noteq> [] \<and>
     length (drop 2 (trim input)) \<le> 64 \<and>
     list_all isHexDigit (drop 2 (trim input)) \<and>
     parsed (validateLegacyAddress input) =
       Some (noParsed\<lparr>felt252 :=
         Some (lit ''0x'' @ replicate (64 - length (drop 2 (trim input))) 48 @ drop 2 (trim input))\<rparr>)"
    using assms sw
    by (auto simp: validateLegacyAddress_def Let_def padStart_def split: if_splits option.splits)
  from e r show ?thesis
    by blast
qed

section \<open>The result keeps the detected format\<close>

text \<open>
  Claim C8. For every input string and every behaviour of the codec, the \<open>format\<close>
  field of the result of \<open>validateStarknetAddress\<close> is the tag that
  \<open>detectAddressFormat\<close> assigns to the input, whether validation succeeds or fails:
  a decode failure keeps the detected format.
\<close>

theorem C8_format_is_detected_format:
  "format (validateStarknetAddress C input) = detectAddressFormat input"
proof (cases "input = []")
  case True
  then show ?thesis
    by (simp add: validateStarknetAddress_def detect_empty)
next
  case False
  then show ?thesis
    by (cases "detectAddressFormat input")
      (simp_all add: validateStarknetAddress_def format_validateLegacyAddress
        format_validateBech32Address)
qed

section \<open>The felt252 bound of legacy addresses\<close>

text \<open>
  Claim C2. For every legacy input \<open>0x\<close> followed by 1 to 64 hexadecimal digits,
  \<open>validateStarknetAddress\<close> succeeds exactly when the value of the digits is at most
  \<open>FELT252_MAX = 2^251 - 1\<close>; a larger value is rejected with the felt252 error and
  is never clamped or wrapped. On success the digits are returned as written, padded
  to 64. The witness instantiates the three boundary inputs of the claim:
  \<open>FELT252_MAX\<close> passes, \<open>FELT252_MAX + 1\<close> and the 64 digits \<open>f\<close> fail.
\<close>

theorem C2_legacy_felt_bound:
  assumes "hs \<noteq> []" "length hs \<le> 64" "list_all isHexDigit hs"
  shows "validateStarknetAddress C (lit ''0x'' @ hs) =
    (if hexValue hs \<le> FELT252_MAX
     then valid Legacy (noParsed\<lparr>felt252 := Some (lit ''0x'' @ padStart 64 48 hs)\<rparr>)
     else invalid Legacy (lit ''Address exceeds felt252 maximum value (2^251 - 1)''))"
  using assms by (simp add: starknet_legacy_hex legacy_hex)

theorem C2_legacy_felt_bound_witness:
  "hexValue (lit ''7ffffffffffffffffffffffffffffffffffffffffffffffffffffffffffffff'') = 2 ^ 251 - 1 \<and>
   validateStarknetAddress bech32 (lit ''0x'' @ lit ''7ffffffffffffffffffffffffffffffffffffffffffffffffffffffffffffff'') =
     valid Legacy (noParsed\<lparr>felt252 := Some (lit ''0x'' @ lit ''07ffffffffffffffffffffffffffffffffffffffffffffffffffffffffffffff'')\<rparr>) \<and>
   hexValue (lit ''800000000000000000000000000000000000000000000000000000000000000'') = 2 ^ 251 \<and>
   validateStarknetAddress bech32 (lit ''0x'' @ lit ''800000000000000000000000000000000000000000000000000000000000000'') =
     invalid Legacy (lit ''Address exceeds felt252 maximum value (2^251 - 1)'') \<and>
   hexValue (lit ''ffffffffffffffffffffffffffffffffffffffffffffffffffffffffffffffff'') = 2 ^ 256 - 1 \<and>
   validateStarknetAddress bech32 (lit ''0x'' @ lit ''ffffffffffffffffffffffffffffffffffffffffffffffffffffffffffffffff'') =
     invalid Legacy (lit ''Address exceeds felt252 maximum value (2^251 - 1)'')"
proof -
  have v1: "hexValue (lit ''7ffffffffffffffffffffffffffffffffffffffffffffffffffffffffffffff'') = 2 ^ 251 - 1"
    by (simp add: lit_def hexValue_def hexDigitValue_def)
  have v2: "hexValue (lit ''800000000000000000000000000000000000000000000000000000000000000'') = 2 ^ 251"
    by (simp add: lit_def hexValue_def hexDigitValue_def)
  have v3: "hexValue (lit ''ffffffffffffffffffffffffffffffffffffffffffffffffffffffffffffffff'') = 2 ^ 256 - 1"
    by (simp add: lit_def hexValue_def hexDigitValue_def)
  have h1: "lit ''7ffffffffffffffffffffffffffffffffffffffffffffffffffffffffffffff'' \<noteq> []" "length (lit ''7ffffffffffffffffffffffffffffffffffffffffffffffffffffffffffffff'') \<le> 64"
    "list_all isHexDigit (lit ''7ffffffffffffffffffffffffffffffffffffffffffffffffffffffffffffff'')"
    by (simp_all add: lit_def isHexDigit_def)
  have h2: "lit ''800000000000000000000000000000000000000000000000000000000000000'' \<noteq> []" "length (lit ''800000000000000000000000000000000000000000000000000000000000000'') \<le> 64"
    "list_all isHexDigit (lit ''800000000000000000000000000000000000000000000000000000000000000'')"
    by (simp_all add: lit_def isHexDigit_def)
  have h3: "lit ''ffffffffffffffffffffffffffffffffffffffffffffffffffffffffffffffff'' \<noteq> []" "length (lit ''ffffffffffffffffffffffffffffffffffffffffffffffffffffffffffffffff'') \<le> 64"
    "list_all isHexDigit (lit ''ffffffffffffffffffffffffffffffffffffffffffffffffffffffffffffffff'')"
    by (simp_all add: lit_def isHexDigit_def)
  have p1: "padStart 64 48 (lit ''7ffffffffffffffffffffffffffffffffffffffffffffffffffffffffffffff'') = lit ''07ffffffffffffffffffffffffffffffffffffffffffffffffffffffffffffff''"
    by (simp add: padStart_def lit_def)
  show ?thesis
    using C2_legacy_felt_bound [OF h1, of bech32] C2_legacy_felt_bound [OF h2, of bech32]
      C2_legacy_felt_bound [OF h3, of bech32]
    by (simp add: v1 v2 v3 p1 FELT252_MAX_def)
qed

section \<open>The felt252 string of a legacy address\<close>

text \<open>
  Claim C3. The \<open>felt252\<close> of a valid legacy address is to be the canonical string:
  \<open>0x\<close>, then 64 lowercase hexadecimal digits. The source pads the digits of the input
  and returns them in the case they were written, so the inputs \<open>0xABC\<close> and \<open>0xabc\<close>,
  which are the same number, are both valid and get two different \<open>felt252\<close> strings;
  the one of \<open>0xABC\<close> ends in \<open>ABC\<close>. \<open>validateSimpleAddress\<close> renders the same field
  with \<open>toString(16)\<close>, in lowercase.
\<close>

theorem C3_legacy_felt252_keeps_uppercase:
  "isValid (validateStarknetAddress bech32 (lit ''0x'' @ lit ''ABC'')) \<and>
   parsed (validateStarknetAddress bech32 (lit ''0x'' @ lit ''ABC'')) =
     Some (noParsed\<lparr>felt252 := Some (lit ''0x0000000000000000000000000000000000000000000000000000000000000ABC'')\<rparr>) \<and>
   parsed (validateStarknetAddress bech32 (lit ''0x'' @ lit ''abc'')) =
     Some (noParsed\<lparr>felt252 := Some (lit ''0x0000000000000000000000000000000000000000000000000000000000000abc'')\<rparr>) \<and>
   hexValue (lit ''ABC'') = hexValue (lit ''abc'') \<and>
   lit ''0x0000000000000000000000000000000000000000000000000000000000000ABC'' \<noteq> lit ''0x0000000000000000000000000000000000000000000000000000000000000abc''"
proof -
  have h: "lit ''ABC'' \<noteq> []" "length (lit ''ABC'') \<le> 64" "list_all isHexDigit (lit ''ABC'')"
    by (simp_all add: lit_def isHexDigit_def)
  have v: "hexValue (lit ''ABC'') \<le> FELT252_MAX"
    by (simp add: lit_def hexValue_def hexDigitValue_def FELT252_MAX_def)
  have p: "lit ''0x'' @ padStart 64 48 (lit ''ABC'') = lit ''0x0000000000000000000000000000000000000000000000000000000000000ABC''"
    by code_simp
  have h': "lit ''abc'' \<noteq> []" "length (lit ''abc'') \<le> 64" "list_all isHexDigit (lit ''abc'')"
    by (simp_all add: lit_def isHexDigit_def)
  have v': "hexValue (lit ''abc'') \<le> FELT252_MAX"
    by (simp add: lit_def hexValue_def hexDigitValue_def FELT252_MAX_def)
  have p': "lit ''0x'' @ padStart 64 48 (lit ''abc'') = lit ''0x0000000000000000000000000000000000000000000000000000000000000abc''"
    by code_simp
  have e: "hexValue (lit ''ABC'') = hexValue (lit ''abc'')"
    by (simp add: lit_def hexValue_def hexDigitValue_def)
  have n: "lit ''0x0000000000000000000000000000000000000000000000000000000000000ABC'' \<noteq> lit ''0x0000000000000000000000000000000000000000000000000000000000000abc''"
    by (simp add: lit_def)
  show ?thesis
    using legacy_valid [OF h v, of bech32] legacy_valid [OF h' v', of bech32] n e
    by (simp add: p p')
qed

section \<open>A unified address without receivers\<close>

text \<open>
  Claim C7. On a unified payload with version byte 1 and no byte after it, the parsing
  loop ends without an error and with no receiver, and the address is invalid with the
  error \<open>Unified address must contain at least one receiver\<close>.
\<close>

theorem C7_no_receivers_rejected:
  "tlvLoop [] 0 [] = Inr [] \<and>
   validateUnifiedAddress h 1 [] =
     invalid Unified (lit ''Unified address must contain at least one receiver'')"
  by (simp add: validateUnifiedAddress_def tlvLoop.simps)

section \<open>Inputs without a known prefix\<close>

lemma legacy_hex_trim:
  assumes "trim input = lit ''0x'' @ hs" "hs \<noteq> []" "length hs \<le> 64" "list_all isHexDigit hs"
  shows "validateLegacyAddress input =
    (if hexValue hs \<le> FELT252_MAX
     then valid Legacy (noParsed\<lparr>felt252 := Some (lit ''0x'' @ padStart 64 48 hs)\<rparr>)
     else invalid Legacy (lit ''Address exceeds felt252 maximum value (2^251 - 1)''))"
proof -
  have p: "padStart 64 48 hs \<noteq> []" "list_all isHexDigit (padStart 64 48 hs)"
    using assms by (auto simp: padStart_def isHexDigit_48 list_all_iff)
  have b: "BigInt_0x (padStart 64 48 hs) = Some (hexValue hs)"
    using BigInt_0x_hex [OF p] by (simp add: padStart_def hexValue_zeros)
  show ?thesis
    using assms by (simp add: validateLegacyAddress_def lit_0x startsWith_def b Let_def)
qed

lemma detect_trim_0x: "trim input = lit ''0x'' @ hs \<Longrightarrow> detectAddressFormat input = Legacy"
  by (simp add: detectAddressFormat_def lit_0x startsWith_def)

text \<open>
  Claim C9 speaks of the input as given, but the detector trims it first: the input
  \<open>0x1\<close> after a space starts with none of the four prefixes, and is a valid legacy
  address.
\<close>

theorem C9_leading_space_counterexample:
  "\<not> startsWith (lit '' 0x1'') (lit ''0x'') \<and>
   \<not> startsWith (lit '' 0x1'') (lit ''strk1'') \<and>
   \<not> startsWith (lit '' 0x1'') (lit ''strkx1'') \<and>
   \<not> startsWith (lit '' 0x1'') (lit ''strku1'') \<and>
   detectAddressFormat (lit '' 0x1'') = Legacy \<and>
   isValid (validateStarknetAddress bech32 (lit '' 0x1''))"
proof -
  have t: "trim (lit '' 0x1'') = lit ''0x'' @ lit ''1''"
    by (simp add: string_eval)
  have h: "lit ''1'' \<noteq> []" "length (lit ''1'') \<le> 64" "list_all isHexDigit (lit ''1'')"
    by (simp_all add: lit_def isHexDigit_def)
  have b: "hexValue (lit ''1'') \<le> FELT252_MAX"
    by (simp add: lit_def hexValue_def hexDigitValue_def FELT252_MAX_def)
  have d: "detectAddressFormat (lit '' 0x1'') = Legacy"
    using t by (rule detect_trim_0x)
  have n: "lit '' 0x1'' \<noteq> []"
    by (simp add: lit_def)
  have v: "isValid (validateStarknetAddress bech32 (lit '' 0x1''))"
    using legacy_hex_trim [OF t h] b n d by (simp add: validateStarknetAddress_def)
  have s: "\<not> startsWith (lit '' 0x1'') (lit ''0x'')" "\<not> startsWith (lit '' 0x1'') (lit ''strk1'')"
    "\<not> startsWith (lit '' 0x1'') (lit ''strkx1'')" "\<not> startsWith (lit '' 0x1'') (lit ''strku1'')"
    by (simp_all add: lit_def startsWith_def)
  from s d v show ?thesis
    by simp
qed

text \<open>
  Claim C9, amended. For every string whose trimmed form starts with none of \<open>0x\<close>,
  \<open>strk1\<close>, \<open>strkx1\<close>, \<open>strku1\<close>, \<open>detectAddressFormat\<close> returns the unknown tag
  and \<open>validateStarknetAddress\<close> returns an invalid result of unknown format; its
  error is the fixed message listing the supported prefixes when the input is not
  empty, and \<open>Input must be a non-empty string\<close> when it is.
\<close>

theorem C9_unknown_after_trim:
  assumes "\<not> startsWith (trim input) (lit ''0x'')"
    and "\<not> startsWith (trim input) (lit ''strk1'')"
    and "\<not> startsWith (trim input) (lit ''strkx1'')"
    and "\<not> startsWith (trim input) (lit ''strku1'')"
  shows "detectAddressFormat input = Unknown \<and>
    validateStarknetAddress C input =
      invalid Unknown
        (if input = [] then lit ''Input must be a non-empty string''
         else lit (''Unknown address format. Supported formats: 0x... (legacy), '' @
           ''strk1... (public), strkx1... (shielded), strku1... (unified)''))"
  using assms by (simp add: detectAddressFormat_def validateStarknetAddress_def)

theorem C9_unknown_after_trim_witness:
  "\<not> startsWith (trim (lit ''hello '')) (lit ''0x'') \<and>
   \<not> startsWith (trim (lit ''hello '')) (lit ''strk1'') \<and>
   \<not> startsWith (trim (lit ''hello '')) (lit ''strkx1'') \<and>
   \<not> startsWith (trim (lit ''hello '')) (lit ''strku1'') \<and>
   detectAddressFormat (lit ''hello '') = Unknown \<and>
   validateStarknetAddress bech32 (lit ''hello '') =
      invalid Unknown
        (lit (''Unknown address format. Supported formats: 0x... (legacy), '' @
           ''strk1... (public), strkx1... (shielded), strku1... (unified)''))"
proof -
  have t: "trim (lit ''hello '') = lit ''hello''"
    by (simp add: string_eval)
  have s: "\<not> startsWith (trim (lit ''hello '')) (lit ''0x'')"
    "\<not> startsWith (trim (lit ''hello '')) (lit ''strk1'')"
    "\<not> startsWith (trim (lit ''hello '')) (lit ''strkx1'')"
    "\<not> startsWith (trim (lit ''hello '')) (lit ''strku1'')"
    unfolding t by (simp_all add: lit_def startsWith_def)
  have n: "lit ''hello '' \<noteq> []"
    by (simp add: lit_def)
  show ?thesis
    using C9_unknown_after_trim [OF s, of bech32] s n by simp
qed

section \<open>The simple validator\<close>

lemma unat_byte: "unat (b :: 8 word) < 256"
proof -
  have "unat b < 2 ^ LENGTH(8)"
    by (rule unsigned_less)
  then show ?thesis
    by simp
qed

lemma toString16_digit: "n < 16 \<Longrightarrow> toString16 n = [hexDigit n]"
  by (subst toString16.simps) simp

lemma toString16_byte:
  assumes "n < 256"
  shows "toString16 n =
     (if n < 16 then [hexDigit n] else [hexDigit (n div 16), hexDigit (n mod 16)])"
proof (cases "n < 16")
  case True
  then show ?thesis
    by (simp add: toString16_digit)
next
  case False
  from assms have "n div 16 < 16"
    by simp
  then have "toString16 (n div 16) = [hexDigit (n div 16)]"
    by (rule toString16_digit)
  moreover have "toString16 n = toString16 (n div 16) @ [hexDigit (n mod 16)]"
    using False by (subst toString16.simps) simp
  ultimately show ?thesis
    using False by simp
qed

lemma byteHex_digits: "byteHex b = [hexDigit (unat b div 16), hexDigit (unat b mod 16)]"
proof (cases "unat b < 16")
  case True
  then show ?thesis
    by (simp add: byteHex_def toString16_digit padStart_def hexDigit_def)
next
  case False
  then show ?thesis
    using toString16_byte [OF unat_byte, of b] by (simp add: byteHex_def padStart_def)
qed

lemma isHexDigit_hexDigit: "k < 16 \<Longrightarrow> isHexDigit (hexDigit k)"
  by (auto simp: isHexDigit_def hexDigit_def)

lemma hexDigitValue_hexDigit: "k < 16 \<Longrightarrow> hexDigitValue (hexDigit k) = int k"
  by (auto simp: hexDigitValue_def hexDigit_def)

lemma isHexDigit_bytesToHex: "list_all isHexDigit (concat (map byteHex bs))"
proof (induction bs)
  case Nil
  then show ?case by simp
next
  case (Cons b bs)
  have "unat b < 256"
    by (rule unat_byte)
  then have "unat b div 16 < 16"
    by simp
  with Cons show ?case
    by (simp add: byteHex_digits isHexDigit_hexDigit)
qed

lemma hexstep_byte:
  "foldl (\<lambda>a c. 16 * a + hexDigitValue c) a (byteHex b) = 256 * a + uint b"
proof -
  have 1: "unat b div 16 < 16"
    using unat_byte [of b] by simp
  have 2: "unat b mod 16 < 16"
    by simp
  have 3: "foldl (\<lambda>a c. 16 * a + hexDigitValue c) a (byteHex b) =
      16 * (16 * a + int (unat b div 16)) + int (unat b mod 16)"
    by (simp only: byteHex_digits foldl_Cons foldl_Nil hexDigitValue_hexDigit [OF 1]
        hexDigitValue_hexDigit [OF 2])
  have "16 * (unat b div 16) + unat b mod 16 = unat b"
    by simp
  then have "int (16 * (unat b div 16) + unat b mod 16) = int (unat b)"
    by (simp only:)
  then have 4: "16 * int (unat b div 16) + int (unat b mod 16) = uint b"
    by (simp only: of_nat_add of_nat_mult of_nat_numeral of_nat_unat)
  have 5: "16 * (16 * a + x) + y = 256 * a + (16 * x + y)" for x y :: int
    by simp
  show ?thesis
    by (simp only: 3 5 4)
qed

lemma hexValue_bytes_foldl:
  "foldl (\<lambda>a c. 16 * a + hexDigitValue c) a (concat (map byteHex bs)) =
   foldl (\<lambda>a b. 256 * a + uint b) a bs"
  by (induction bs arbitrary: a) (simp_all add: hexstep_byte)

lemma hexValue_bytesToHex: "hexValue (bytesToHex bs) = be_value bs"
  by (simp add: hexValue_def be_value_def bytesToHex_def hexValue_bytes_foldl)

lemma BigInt_bytesToHex: "bs \<noteq> [] \<Longrightarrow> BigInt_0x (concat (map byteHex bs)) = Some (be_value bs)"
proof -
  assume "bs \<noteq> []"
  then have "concat (map byteHex bs) \<noteq> []"
    by (cases bs) (simp_all add: byteHex_digits)
  then show ?thesis
    using BigInt_0x_hex [OF _ isHexDigit_bytesToHex, of bs] hexValue_bytesToHex [of bs]
    by (simp add: bytesToHex_def)
qed

text \<open>
  Claim C4. For every format tag, prefix, version and data, \<open>validateSimpleAddress\<close>
  is the function of the specification: it rejects a version other than 1 with the
  unsupported-version error, then data whose length is not 32 with the data-length
  error, then data whose big-endian value exceeds \<open>FELT252_MAX\<close>; otherwise it returns
  the prefix, the version, the data as payload, and as \<open>felt252\<close> the text \<open>0x\<close>
  followed by the big-endian hexadecimal encoding of the data. The branch of the source
  for a failed parse is never taken.
\<close>

theorem C4_simple_rules_in_order:
  "validateSimpleAddress fmt h v d = validateSimple_spec fmt h v d"
proof (cases "v = 1 \<and> length d = 32")
  case True
  then have "d \<noteq> []"
    by auto
  then show ?thesis
    using True
    by (simp add: validateSimpleAddress_def validateSimple_spec_def BigInt_bytesToHex
        bytesToHex_def Let_def)
next
  case False
  then show ?thesis
    by (auto simp: validateSimpleAddress_def validateSimple_spec_def)
qed

section \<open>The loop of the unified validator\<close>

lemma tlvLoop_end: "\<not> off < length d \<Longrightarrow> tlvLoop d off rs = Inr rs"
  by (subst tlvLoop.simps) simp

lemma tlvLoop_header:
  "off < length d \<Longrightarrow> length d < off + 2 \<Longrightarrow>
   tlvLoop d off rs = Inl (lit ''Incomplete TLV record: missing type or length'')"
  by (subst tlvLoop.simps) simp

lemma tlvLoop_truncated:
  "off + 2 \<le> length d \<Longrightarrow> length d < off + 2 + unat (d ! (off + 1)) \<Longrightarrow>
   tlvLoop d off rs = Inl (incompleteError (unat (d ! (off + 1))) (length d - (off + 2)))"
  by (subst tlvLoop.simps) (simp add: Let_def incompleteError_def)

lemma tlvLoop_record:
  "off + 2 + unat (d ! (off + 1)) \<le> length d \<Longrightarrow>
   tlvLoop d off rs =
     (case lengthError (unat (d ! off)) (unat (d ! (off + 1))) of
        Some e \<Rightarrow> Inl e
      | None \<Rightarrow>
          tlvLoop d (off + 2 + unat (d ! (off + 1)))
            (rs @ [receiverOf (unat (d ! off))
               (take (unat (d ! (off + 1))) (drop (off + 2) d))]))"
  by (subst tlvLoop.simps)
    (simp add: Let_def lengthError_def receiverOf_def TLV_PUBLIC_KEY_def TLV_SHIELDED_def)


lemma drop_Suc_tl: "drop (Suc n) xs = tl (drop n xs)"
  by (simp add: drop_Suc tl_drop)

lemma tlvLoop_parseTLV:
  "off \<le> length d \<Longrightarrow>
   tlvLoop d off rs = (case parseTLV (drop off d) of Inl e \<Rightarrow> Inl e | Inr r \<Rightarrow> Inr (rs @ r))"
proof (induction "length d - off" arbitrary: off rs rule: less_induct)
  case less
  show ?case
  proof (cases "drop off d" rule: parseTLV.cases)
    case 1
    then have "\<not> off < length d"
      by simp
    then show ?thesis
      using 1 by (simp add: tlvLoop_end)
  next
    case (2 t)
    then have "length (drop off d) = 1"
      by simp
    then have "off < length d" "length d < off + 2"
      by auto
    then show ?thesis
      using 2 by (simp add: tlvLoop_header)
  next
    case (3 t l rest)
    then have "length (drop off d) = 2 + length rest"
      by simp
    then have len: "length d = off + 2 + length rest"
      using less.prems by simp
    have t: "d ! off = t"
      using 3 by (rule nth_via_drop)
    have "drop (Suc off) d = l # rest"
      using 3 by (simp add: drop_Suc_tl)
    then have l: "d ! (off + 1) = l" and r: "drop (off + 2) d = rest"
      by (simp_all add: nth_via_drop drop_Suc_tl)
    show ?thesis
    proof (cases "unat l > length rest")
      case True
      then show ?thesis
        using 3 len l tlvLoop_truncated [of off d rs] by simp
    next
      case False
      then have fit: "off + 2 + unat (d ! (off + 1)) \<le> length d"
        using len l by simp
      have d': "drop (off + 2 + unat l) d = drop (unat l) rest"
        using r by (metis add.commute drop_drop)
      show ?thesis
      proof (cases "lengthError (unat t) (unat l)")
        case (Some e)
        then show ?thesis
          using 3 False tlvLoop_record [OF fit, of rs] t l by simp
      next
        case None
        have "length d - (off + 2 + unat l) < length d - off"
          using len False by simp
        moreover have "off + 2 + unat l \<le> length d"
          using fit l by simp
        ultimately have "tlvLoop d (off + 2 + unat l) (rs @ [receiverOf (unat t) (take (unat l) rest)]) =
            (case parseTLV (drop (unat l) rest) of
               Inl e \<Rightarrow> Inl e
             | Inr r \<Rightarrow> Inr ((rs @ [receiverOf (unat t) (take (unat l) rest)]) @ r))"
          using less.hyps [of "off + 2 + unat l" "rs @ [receiverOf (unat t) (take (unat l) rest)]"] d'
          by simp
        then show ?thesis
          using 3 None False tlvLoop_record [OF fit, of rs] t l r
          by (simp split: sum.splits)
      qed
    qed
  qed
qed

lemma tlvLoop_is_parseTLV: "tlvLoop d 0 [] = parseTLV d"
  using tlvLoop_parseTLV [of 0 d "[]"] by (simp split: sum.splits)

lemma parseTLV_append:
  "parseTLV a = Inr ra \<Longrightarrow>
   parseTLV (a @ b) = (case parseTLV b of Inl e \<Rightarrow> Inl e | Inr rb \<Rightarrow> Inr (ra @ rb))"
proof (induction a arbitrary: ra rule: parseTLV.induct)
  case 1
  then show ?case
    by (simp split: sum.splits)
next
  case (2 t)
  then show ?case
    by simp
next
  case (3 t l rest)
  from "3.prems" have fit: "\<not> unat l > length rest"
    by (simp split: if_splits)
  from "3.prems" fit have le: "lengthError (unat t) (unat l) = None"
    by (simp split: option.splits)
  from "3.prems" fit le obtain rs where
    rs: "parseTLV (drop (unat l) rest) = Inr rs"
    and ra: "ra = receiverOf (unat t) (take (unat l) rest) # rs"
    by (auto split: sum.splits)
  have "parseTLV (drop (unat l) rest @ b) =
      (case parseTLV b of Inl e \<Rightarrow> Inl e | Inr rb \<Rightarrow> Inr (rs @ rb))"
    using "3.IH" [OF fit le rs] .
  then show ?case
    using fit le ra by (simp split: sum.splits)
qed

lemma parseTLV_data_length:
  "parseTLV d = Inr rs \<Longrightarrow> r \<in> set rs \<Longrightarrow> length (data r) \<le> 255"
proof (induction d arbitrary: rs rule: parseTLV.induct)
  case 1
  then show ?case
    by simp
next
  case (2 t)
  then show ?case
    by simp
next
  case (3 t l rest)
  from "3.prems"(1) have fit: "\<not> unat l > length rest"
    by (simp split: if_splits)
  from "3.prems"(1) fit have le: "lengthError (unat t) (unat l) = None"
    by (simp split: option.splits)
  from "3.prems"(1) fit le obtain rs' where
    rs': "parseTLV (drop (unat l) rest) = Inr rs'"
    and rs: "rs = receiverOf (unat t) (take (unat l) rest) # rs'"
    by (auto split: sum.splits)
  have "unat l < 2 ^ LENGTH(8)"
    by (rule unsigned_less)
  then have "unat l \<le> 255"
    by simp
  then have "length (data (receiverOf (unat t) (take (unat l) rest))) \<le> 255"
    by (simp add: receiverOf_def)
  then show ?case
    using "3.IH" [OF fit le rs'] "3.prems"(2) rs by auto
qed

section \<open>Records of the unified payload\<close>

lemma unified_by_parseTLV:
  "validateUnifiedAddress h 1 d =
     (case parseTLV d of
        Inl msg \<Rightarrow> invalid Unified msg
      | Inr rs \<Rightarrow>
          if rs = [] then
            invalid Unified (lit ''Unified address must contain at least one receiver'')
          else
            valid Unified (noParsed\<lparr>hrp := Some h, version := Some 1,
              payload := Some d, receivers := Some rs\<rparr>))"
  by (simp add: validateUnifiedAddress_def tlvLoop_is_parseTLV split: sum.splits)

lemmas unified_by_parseTLV_Suc = unified_by_parseTLV [unfolded One_nat_def]

text \<open>
  Claim C6. When the parser has read the records before it without error and reaches a
  record whose length byte exceeds the number of bytes that follow its two-byte header,
  validation fails with the error that states the expected and the remaining number of
  bytes, whatever the type byte is; the short value is never read as a record.
\<close>

theorem C6_truncated_record_rejected:
  assumes "tlvLoop pre 0 [] = Inr rs" and "length tail < unat l"
  shows "validateUnifiedAddress h 1 (pre @ [t, l] @ tail) =
    invalid Unified
      (lit ''Incomplete TLV record: expected '' @ toString10 (unat l) @
       lit '' bytes but only '' @ toString10 (length tail) @ lit '' remaining'')"
proof -
  have "parseTLV pre = Inr rs"
    using assms(1) by (simp add: tlvLoop_is_parseTLV)
  then have "parseTLV (pre @ [t, l] @ tail) = Inl (incompleteError (unat l) (length tail))"
    using assms(2) by (simp add: parseTLV_append)
  then show ?thesis
    by (simp only: unified_by_parseTLV sum.case incompleteError_def)
qed

theorem C6_truncated_record_rejected_witness:
  "tlvLoop [5, 1, 170] 0 [] = Inr [receiverOf 5 [170]] \<and>
   length (replicate 31 (0 :: 8 word)) < unat (32 :: 8 word) \<and>
   validateUnifiedAddress (lit ''strku'') 1 ([5, 1, 170] @ [0, 32] @ replicate 31 0) =
     invalid Unified (lit ''Incomplete TLV record: expected 32 bytes but only 31 remaining'')"
proof -
  have p: "tlvLoop [5, 1, 170] 0 [] = Inr [receiverOf 5 [170]]"
    by (simp add: tlvLoop_is_parseTLV lengthError_def TLV_PUBLIC_KEY_def TLV_SHIELDED_def)
  have l: "length (replicate 31 (0 :: 8 word)) < unat (32 :: 8 word)"
    by simp
  have m: "lit ''Incomplete TLV record: expected '' @ toString10 (unat (32 :: 8 word)) @
       lit '' bytes but only '' @ toString10 (length (replicate 31 (0 :: 8 word))) @
       lit '' remaining'' =
     lit ''Incomplete TLV record: expected 32 bytes but only 31 remaining''"
    by (simp add: toString10.simps lit_def)
  show ?thesis
    using C6_truncated_record_rejected [OF p l, of "lit ''strku''" 0] p l by (simp only: m simp_thms)
qed

text \<open>
  Claim C5. When the parser has read the records before it without error and reaches a
  record of type \<open>0x00\<close> or \<open>0x01\<close> whose length byte is not 32, the whole validation
  fails with an error about that length: the error of the type when the value is all
  there, the error of C6 when it is cut short. When it reaches a record of any other
  type whose value is all there, whatever its length, the record becomes a receiver
  with the description \<open>Unknown receiver type N\<close> (the source writes a capital U) and
  parsing goes on: the address is valid unless a later record fails.
\<close>

theorem C5_known_and_unknown_types:
  assumes "tlvLoop pre 0 [] = Inr rs"
  shows "((unat t = TLV_PUBLIC_KEY \<or> unat t = TLV_SHIELDED) \<and> unat l \<noteq> 32 \<longrightarrow>
      validateUnifiedAddress h 1 (pre @ [t, l] @ rest) =
        invalid Unified
          (if length rest < unat l then
             lit ''Incomplete TLV record: expected '' @ toString10 (unat l) @
             lit '' bytes but only '' @ toString10 (length rest) @ lit '' remaining''
           else if unat t = TLV_PUBLIC_KEY then
             lit ''Invalid public key length: '' @ toString10 (unat l) @
             lit '' bytes (expected 32)''
           else
             lit ''Invalid shielded receiver length: '' @ toString10 (unat l) @
             lit '' bytes (expected 32)'')) \<and>
    (unat t \<noteq> TLV_PUBLIC_KEY \<and> unat t \<noteq> TLV_SHIELDED \<and> unat l \<le> length rest \<longrightarrow>
      validateUnifiedAddress h 1 (pre @ [t, l] @ rest) =
        (case tlvLoop (drop (unat l) rest) 0 [] of
           Inl msg \<Rightarrow> invalid Unified msg
         | Inr rs' \<Rightarrow>
             valid Unified (noParsed\<lparr>hrp := Some h, version := Some 1,
               payload := Some (pre @ [t, l] @ rest),
               receivers := Some (rs @
                 [\<lparr>type = unat t, data = take (unat l) rest,
                   description = Some (lit ''Unknown receiver type '' @ toString10 (unat t))\<rparr>] @
                 rs')\<rparr>)))"
proof -
  have pre: "parseTLV pre = Inr rs"
    using assms by (simp add: tlvLoop_is_parseTLV)
  have a: "parseTLV (pre @ [t, l] @ rest) =
      (case parseTLV (t # l # rest) of Inl e \<Rightarrow> Inl e | Inr rb \<Rightarrow> Inr (rs @ rb))"
    using parseTLV_append [OF pre, of "t # l # rest"] by simp
  have u: "validateUnifiedAddress h 1 (pre @ [t, l] @ rest) =
      (case parseTLV (t # l # rest) of
         Inl msg \<Rightarrow> invalid Unified msg
       | Inr rb \<Rightarrow>
           valid Unified (noParsed\<lparr>hrp := Some h, version := Some 1,
             payload := Some (pre @ [t, l] @ rest), receivers := Some (rs @ rb)\<rparr>))"
  proof (cases "parseTLV (t # l # rest)")
    case (Inl e)
    then show ?thesis
      by (simp only: unified_by_parseTLV a sum.case)
  next
    case (Inr rb)
    then have "rb \<noteq> []"
      by (auto split: if_splits option.splits sum.splits)
    then show ?thesis
      using Inr by (simp only: unified_by_parseTLV a sum.case) simp
  qed
  show ?thesis
    unfolding u
    by (auto simp: tlvLoop_is_parseTLV lengthError_def receiverOf_def
        incompleteError_def TLV_PUBLIC_KEY_def TLV_SHIELDED_def split: sum.splits)
qed

theorem C5_known_and_unknown_types_witness:
  "tlvLoop [] 0 [] = Inr [] \<and>
   validateUnifiedAddress (lit ''strku'') 1 ([] @ [0, 5] @ [1, 2, 3, 4, 5]) =
     invalid Unified (lit ''Invalid public key length: 5 bytes (expected 32)'') \<and>
   validateUnifiedAddress (lit ''strku'') 1 ([] @ [5, 3] @ [1, 2, 3]) =
     valid Unified (noParsed\<lparr>hrp := Some (lit ''strku''), version := Some 1,
       payload := Some [5, 3, 1, 2, 3],
       receivers := Some [\<lparr>type = 5, data = [1, 2, 3],
         description = Some (lit ''Unknown receiver type 5'')\<rparr>]\<rparr>)"
proof -
  have p: "tlvLoop [] 0 [] = Inr []"
    by (simp add: tlvLoop_end)
  have m1: "lit ''Invalid public key length: '' @ toString10 5 @ lit '' bytes (expected 32)'' =
      lit ''Invalid public key length: 5 bytes (expected 32)''"
    by (simp add: toString10.simps lit_def)
  have m2: "lit ''Unknown receiver type '' @ toString10 5 = lit ''Unknown receiver type 5''"
    by (simp add: toString10.simps lit_def)
  show ?thesis
    using C5_known_and_unknown_types [OF p, of 0 5 "lit ''strku''" "[1, 2, 3, 4, 5]"]
      C5_known_and_unknown_types [OF p, of 5 3 "lit ''strku''" "[1, 2, 3]"]
    by (simp add: p m1 m2 TLV_PUBLIC_KEY_def TLV_SHIELDED_def)
qed

section \<open>The size of a receiver\<close>

lemma parsed_invalid [simp]: "parsed (invalid f m) = None"
  by (simp add: invalid_def)

lemma receivers_noParsed [simp]: "receivers noParsed = None"
  by (simp add: noParsed_def)

lemma legacy_no_receivers:
  "parsed (validateLegacyAddress input) = Some p \<Longrightarrow> receivers p = None"
  by (auto simp: validateLegacyAddress_def Let_def split: if_splits option.splits)

lemma simple_no_receivers:
  "parsed (validateSimpleAddress f h v d) = Some p \<Longrightarrow> receivers p = None"
  by (auto simp: validateSimpleAddress_def Let_def split: if_splits option.splits)

lemma unified_receiver_length:
  assumes "parsed (validateUnifiedAddress h v d) = Some p" "receivers p = Some rs" "r \<in> set rs"
  shows "length (data r) \<le> 255"
proof -
  from assms(1,2) have "tlvLoop d 0 [] = Inr rs"
    by (auto simp: validateUnifiedAddress_def split: if_splits sum.splits)
  then have "parseTLV d = Inr rs"
    by (simp add: tlvLoop_is_parseTLV)
  then show ?thesis
    using assms(3) by (rule parseTLV_data_length)
qed

lemma bech32_receiver_length:
  assumes "parsed (validateBech32Address C input f) = Some p" "receivers p = Some rs" "r \<in> set rs"
  shows "length (data r) \<le> 255"
  using assms
  by (auto simp: validateBech32Address_def Let_def decodeError_def
      split: sum.splits prod.splits if_splits
      dest: simple_no_receivers unified_receiver_length)

text \<open>
  Claim C10. For every input and every codec, when validation succeeds and the result
  has receivers, the data of each receiver is at most 255 bytes long: the length of a
  record is one byte.
\<close>

theorem C10_receiver_data_at_most_255:
  assumes "isValid (validateStarknetAddress C input)"
    and "parsed (validateStarknetAddress C input) = Some p"
    and "receivers p = Some rs"
    and "r \<in> set rs"
  shows "length (data r) \<le> 255"
proof (cases "input = []")
  case True
  then show ?thesis
    using assms(2) by (simp add: validateStarknetAddress_def)
next
  case False
  show ?thesis
  proof (cases "detectAddressFormat input")
    case Legacy
    then show ?thesis
      using False assms(2,3) legacy_no_receivers [of input p]
      by (simp add: validateStarknetAddress_def)
  next
    case Public
    then show ?thesis
      using False assms(2,3,4) bech32_receiver_length [of C input Public p rs r]
      by (simp add: validateStarknetAddress_def)
  next
    case Shielded
    then show ?thesis
      using False assms(2,3,4) bech32_receiver_length [of C input Shielded p rs r]
      by (simp add: validateStarknetAddress_def)
  next
    case Unified
    then show ?thesis
      using False assms(2,3,4) bech32_receiver_length [of C input Unified p rs r]
      by (simp add: validateStarknetAddress_def)
  next
    case Unknown
    then show ?thesis
      using False assms(2) by (simp add: validateStarknetAddress_def)
  qed
qed

lemma unified_example:
  "validateStarknetAddress bech32 (lit ''strku1qyzsr2s82xc5u'') =
     valid Unified (noParsed\<lparr>hrp := Some (lit ''strku''), version := Some 1,
       payload := Some [5, 1, 170],
       receivers := Some [\<lparr>type = 5, data = [170],
         description = Some (lit ''Unknown receiver type 5'')\<rparr>]\<rparr>)"
proof -
  have n: "lit ''strku1qyzsr2s82xc5u'' \<noteq> []"
    by (simp add: lit_def)
  have t: "trim (lit ''strku1qyzsr2s82xc5u'') = lit ''strku1qyzsr2s82xc5u''"
    by (simp add: string_eval)
  have f: "detectAddressFormat (lit ''strku1qyzsr2s82xc5u'') = Unified"
    unfolding detectAddressFormat_def t by (simp add: lit_def startsWith_def)
  have d: "bech32_decode (lit ''strku1qyzsr2s82xc5u'') = Inr (lit ''strku'', [0, 4, 2, 16, 3, 10, 16])"
    by code_simp
  have w: "bech32_fromWords [0, 4, 2, 16, 3, 10, 16] = Inr [1, 5, 1, 170]"
    by code_simp
  have u: "validateUnifiedAddress (lit ''strku'') 1 ([] @ [5, 1] @ [170]) =
     valid Unified (noParsed\<lparr>hrp := Some (lit ''strku''), version := Some 1,
       payload := Some [5, 1, 170],
       receivers := Some [\<lparr>type = 5, data = [170],
         description = Some (lit ''Unknown receiver type 5'')\<rparr>]\<rparr>)"
    by (simp add: unified_by_parseTLV_Suc lengthError_def receiverOf_def TLV_PUBLIC_KEY_def
        TLV_SHIELDED_def toString10.simps lit_def)
  show ?thesis
    using u by (simp add: validateStarknetAddress_def n f validateBech32Address_def t bech32_def
        d w expectedHrpOf_def STARKNET_HRPS_unified_def)
qed

theorem C10_receiver_data_at_most_255_witness:
  "isValid (validateStarknetAddress bech32 (lit ''strku1qyzsr2s82xc5u'')) \<and>
   parsed (validateStarknetAddress bech32 (lit ''strku1qyzsr2s82xc5u'')) =
     Some (noParsed\<lparr>hrp := Some (lit ''strku''), version := Some 1,
       payload := Some [5, 1, 170],
       receivers := Some [\<lparr>type = 5, data = [170],
         description = Some (lit ''Unknown receiver type 5'')\<rparr>]\<rparr>) \<and>
   length (data \<lparr>type = 5, data = [170],
         description = Some (lit ''Unknown receiver type 5'')\<rparr>) \<le> 255"
proof -
  let ?r = "\<lparr>type = 5, data = [170], description = Some (lit ''Unknown receiver type 5'')\<rparr>"
  let ?p = "noParsed\<lparr>hrp := Some (lit ''strku''), version := Some 1,
       payload := Some [5, 1, 170], receivers := Some [?r]\<rparr>"
  have v: "isValid (validateStarknetAddress bech32 (lit ''strku1qyzsr2s82xc5u''))"
    by (simp add: unified_example)
  have p: "parsed (validateStarknetAddress bech32 (lit ''strku1qyzsr2s82xc5u'')) = Some ?p"
    by (simp add: unified_example)
  have r: "receivers ?p = Some [?r]"
    by simp
  have m: "?r \<in> set [?r]"
    by simp
  from C10_receiver_data_at_most_255 [OF v p r m] v p show ?thesis
    by simp
qed

section \<open>The generated test vectors\<close>

lemma foldl_be_shift:
  "foldl (\<lambda>a b. 256 * a + uint b) a bs =
   a * 256 ^ length bs + foldl (\<lambda>a b. 256 * a + uint (b :: 8 word)) 0 bs"
proof (induction bs arbitrary: a)
  case Nil
  then show ?case by simp
next
  case (Cons b bs)
  let ?f = "\<lambda>a b. 256 * a + uint (b :: 8 word)"
  have 1: "foldl ?f (256 * a + uint b) bs = (256 * a + uint b) * 256 ^ length bs + foldl ?f 0 bs"
    by (rule Cons.IH)
  have 2: "foldl ?f (uint b) bs = uint b * 256 ^ length bs + foldl ?f 0 bs"
    by (rule Cons.IH)
  have "foldl ?f a (b # bs) = foldl ?f (256 * a + uint b) bs"
    by simp
  moreover have "foldl ?f 0 (b # bs) = foldl ?f (uint b) bs"
    by simp
  moreover have "(256 * a + uint b) * 256 ^ length bs =
      a * 256 ^ length (b # bs) + uint b * 256 ^ length bs"
    by (simp add: algebra_simps)
  ultimately show ?case
    using 1 2 by (simp only:)
qed

lemma be_value_nonneg: "0 \<le> be_value bs"
proof -
  have "0 \<le> a \<Longrightarrow> 0 \<le> foldl (\<lambda>a b. 256 * a + uint (b :: 8 word)) a bs" for a
    by (induction bs arbitrary: a) simp_all
  then show ?thesis
    by (simp add: be_value_def)
qed

lemma be_value_Cons: "be_value (b # bs) = uint b * 256 ^ length bs + be_value bs"
  using foldl_be_shift [of "uint b" bs] by (simp add: be_value_def)

lemma low_nibble: "unat ((w :: 8 word) AND 0x0f) = unat w mod 16"
proof -
  have "(w AND 0x0f) = take_bit 4 w"
    by (simp add: take_bit_eq_mask mask_eq_exp_minus_1)
  then show ?thesis
    by (simp add: unsigned_take_bit_eq take_bit_eq_mod unat_mod)
qed

lemma unat_randomByte: "unat (randomByte d) = d mod 256"
  by (simp add: randomByte_def unat_of_nat)

lemma maskedBytes_shape:
  assumes "32 \<le> length rnd"
  shows "length (maskedBytes rnd) = 32"
    and "unat (maskedBytes rnd ! 0) = rnd ! 0 mod 16"
proof -
  show "length (maskedBytes rnd) = 32"
    using assms by (simp add: maskedBytes_def Let_def)
  have "maskedBytes rnd ! 0 = randomByte (rnd ! 0) AND 0x0f"
    using assms by (simp add: maskedBytes_def Let_def)
  then have "unat (maskedBytes rnd ! 0) = (rnd ! 0 mod 256) mod 16"
    by (simp only: low_nibble unat_randomByte)
  also have "\<dots> = rnd ! 0 mod 16"
    by (simp add: mod_mod_cancel)
  finally show "unat (maskedBytes rnd ! 0) = rnd ! 0 mod 16" .
qed

lemma be_value_lower:
  assumes "length bs = 32" "8 \<le> unat (bs ! 0)"
  shows "FELT252_MAX < be_value bs"
proof -
  from assms(1) obtain b rest where bs: "bs = b # rest" and r: "length rest = 31"
    by (cases bs) auto
  have "int 8 \<le> int (unat b)"
    using assms(2) bs by (simp only: of_nat_le_iff nth_Cons_0)
  then have 8: "8 \<le> uint b"
    by simp
  have c: "(0 :: int) \<le> 256 ^ 31"
    by simp
  have m: "8 * 256 ^ 31 \<le> uint b * (256 :: int) ^ 31"
    using 8 c by (rule mult_right_mono)
  have e: "be_value bs = uint b * 256 ^ 31 + be_value rest"
    unfolding bs be_value_Cons r ..
  have n: "0 \<le> be_value rest"
    by (rule be_value_nonneg)
  have "FELT252_MAX < 8 * 256 ^ 31"
    by (simp add: FELT252_MAX_def)
  also have "\<dots> \<le> uint b * 256 ^ 31 + be_value rest"
    by (rule add_increasing2 [OF n m])
  finally show ?thesis
    by (simp only: e)
qed

lemma simple_over_bound:
  assumes "length d = 32" "8 \<le> unat (d ! 0)"
  shows "validateSimpleAddress fmt h 1 d =
    invalid fmt (lit ''Address exceeds felt252 maximum value (2^251 - 1)'')"
proof -
  have "d \<noteq> []"
    using assms(1) by auto
  then have "BigInt_0x (concat (map byteHex d)) = Some (be_value d)"
    by (rule BigInt_bytesToHex)
  then show ?thesis
    using assms(1) be_value_lower [OF assms] by (simp add: validateSimpleAddress_def)
qed

text \<open>
  Claim C1 asks that every string \<open>generateTestVector\<close> returns validates. For the
  public and the shielded format the source keeps the low four bits of the first byte
  (\<open>& 0x0f\<close>) where its comment promises a value under the felt252 limit; this
  bounds the value by \<open>2^252\<close>, and the limit is \<open>2^251 - 1\<close>. Whenever the
  first draw leaves a first byte of 8 or more, and the codec encodes the payload and
  decodes it back, the string that is returned is rejected by the validator with the
  felt252 error. The witness runs the reference codec on 32 draws of 255.
\<close>

theorem C1_masked_vector_exceeds_bound:
  assumes "fmt = Public \<or> fmt = Shielded"
    and "32 \<le> length rnd"
    and "8 \<le> rnd ! 0 mod 16"
    and "toWords C (1 # maskedBytes rnd) = Inr ws"
    and "encode C (expectedHrpOf fmt) ws = Inr s"
    and "detectAddressFormat s = fmt"
    and "decode C (trim s) = Inr (expectedHrpOf fmt, ws')"
    and "fromWords C ws' = Inr bs"
    and "map of_nat bs = 1 # maskedBytes rnd"
  shows "generateTestVector C rnd fmt = Returned s \<and>
    validateStarknetAddress C s =
      invalid fmt (lit ''Address exceeds felt252 maximum value (2^251 - 1)'')"
proof -
  have g: "generateTestVector C rnd fmt = Returned s"
    using assms(1,2,4,5)
    by (auto simp: generateTestVector_def encodeOrFallback_def expectedHrpOf_def)
  have ne: "s \<noteq> []"
    using assms(1,6) detect_empty by auto
  have m: "length (maskedBytes rnd) = 32" "8 \<le> unat (maskedBytes rnd ! 0)"
    using maskedBytes_shape [OF assms(2)] assms(3) by simp_all
  have u: "fmt \<noteq> Unified"
    using assms(1) by auto
  have b: "validateBech32Address C s fmt =
      validateSimpleAddress fmt (expectedHrpOf fmt) 1 (maskedBytes rnd)"
    using assms(7,8,9) u by (simp add: validateBech32Address_def Let_def)
  have "validateStarknetAddress C s = validateBech32Address C s fmt"
    using ne assms(1,6) by (auto simp: validateStarknetAddress_def)
  then show ?thesis
    using g b simple_over_bound [OF m] by simp
qed

lemma bech32_fields:
  "decode bech32 = bech32_decode" "fromWords bech32 = bech32_fromWords"
  "toWords bech32 = bech32_toWords" "encode bech32 = bech32_encode"
  by (simp_all add: bech32_def)

theorem C1_masked_vector_exceeds_bound_witness:
  "generateTestVector bech32 (replicate 32 255) Public =
     Returned (lit ''strk1qy8lllllllllllllllllllllllllllllllllllllllllllllllll76g4h5h'') \<and>
   validateStarknetAddress bech32 (lit ''strk1qy8lllllllllllllllllllllllllllllllllllllllllllllllll76g4h5h'') =
     invalid Public (lit ''Address exceeds felt252 maximum value (2^251 - 1)'')"
proof -
  let ?s = "lit ''strk1qy8lllllllllllllllllllllllllllllllllllllllllllllllll76g4h5h''"
  let ?ws = "[0, 4, 7] @ replicate 49 31 @ [30 :: nat]"
  have mb: "maskedBytes (replicate 32 255) = 15 # replicate 31 255"
    by code_simp
  have h1: "Public = Public \<or> Public = Shielded"
    by simp
  have h2: "32 \<le> length (replicate 32 (255 :: nat))"
    by simp
  have h3: "8 \<le> replicate 32 (255 :: nat) ! 0 mod 16"
    by simp
  have h4: "toWords bech32 (1 # maskedBytes (replicate 32 255)) = Inr ?ws"
    unfolding bech32_fields mb by code_simp
  have h5: "encode bech32 (expectedHrpOf Public) ?ws = Inr ?s"
    unfolding bech32_fields by code_simp
  have t: "trim ?s = ?s"
    by (simp add: string_eval)
  have h6: "detectAddressFormat ?s = Public"
    unfolding detectAddressFormat_def t by (simp add: lit_def startsWith_def)
  have h7: "decode bech32 (trim ?s) = Inr (expectedHrpOf Public, ?ws)"
    unfolding bech32_fields t by code_simp
  have h8: "fromWords bech32 ?ws = Inr (1 # 15 # replicate 31 255)"
    unfolding bech32_fields by code_simp
  have h9: "map of_nat (1 # 15 # replicate 31 (255 :: nat)) = 1 # maskedBytes (replicate 32 255)"
    unfolding mb by simp
  show ?thesis
    by (rule C1_masked_vector_exceeds_bound [OF h1 h2 h3 h4 h5 h6 h7 h8 h9])
qed

end
